theory Spec2Isabelle
  imports Main
begin

section \<open>Configuration and basic types\<close>

text \<open>
  The embedding follows \<^verbatim>\<open>src/main.py\<close>. Characters are single bytes (a header value
  is a latin-1 string, one character per byte), file contents are byte strings, and
  Python's unbounded integers are \<^typ>\<open>int\<close>.
\<close>

type_synonym bytes = string

definition CHUNK_SIZE :: nat where
  "CHUNK_SIZE = 1024 * 1024"

definition UPLOAD_DIR :: string where
  "UPLOAD_DIR = ''uploads''"

text \<open>\<^verbatim>\<open>UPLOAD_DIR / name\<close> for a relative file name.\<close>

definition upload_path :: "string \<Rightarrow> string" where
  "upload_path name = UPLOAD_DIR @ ''/'' @ name"

text \<open>
  Every \<^verbatim>\<open>raise\<close> of the handlers and every exception of a library call they make
  is a value: \<open>HTTPException status detail\<close> is the handler's own, the others propagate
  out of the handler (a 500 response).
\<close>

datatype error =
    HTTPException nat string
  | ValueError
  | IndexError
  | OSError
  | IntegrityError

section \<open>Rendering and parsing integers\<close>

text \<open>\<^verbatim>\<open>str(n)\<close> for an integer: decimal digits, a minus sign when negative.\<close>

definition digit_char :: "nat \<Rightarrow> char" where
  "digit_char d = ''0123456789'' ! d"

function str_nat :: "nat \<Rightarrow> string" where
  "str_nat n = (if n < 10 then [digit_char n] else str_nat (n div 10) @ [digit_char (n mod 10)])"
  by pat_completeness auto
termination
  by (relation "measure (\<lambda>n. n)") auto

declare str_nat.simps [simp del]

definition str_int :: "int \<Rightarrow> string" where
  "str_int i = (if i < 0 then CHR ''-'' # str_nat (nat (- i)) else str_nat (nat i))"

text \<open>
  \<^verbatim>\<open>int(s)\<close> for a string: surrounding whitespace is stripped, a sign may lead, and the
  rest is decimal digits with single underscores allowed between digits. Anything else
  raises \<^verbatim>\<open>ValueError\<close> (\<open>None\<close> here).
\<close>

definition is_space :: "char \<Rightarrow> bool" where
  "is_space c = (of_char c \<in> {9, 10, 11, 12, 13, 28, 29, 30, 31, 32, 133, 160 :: nat})"

definition is_digit :: "char \<Rightarrow> bool" where
  "is_digit c = (48 \<le> (of_char c :: nat) \<and> (of_char c :: nat) \<le> 57)"

definition digit_val :: "char \<Rightarrow> nat" where
  "digit_val c = of_char c - 48"

definition strip :: "string \<Rightarrow> string" where
  "strip s = rev (dropWhile is_space (rev (dropWhile is_space s)))"

fun digits_acc :: "nat \<Rightarrow> string \<Rightarrow> nat option" where
  "digits_acc acc [] = Some acc"
| "digits_acc acc [c] = (if is_digit c then Some (acc * 10 + digit_val c) else None)"
| "digits_acc acc (c # d # ds) =
     (if is_digit c then digits_acc (acc * 10 + digit_val c) (d # ds)
      else if c = CHR ''_'' \<and> is_digit d then digits_acc (acc * 10 + digit_val d) ds
      else None)"

definition py_digits :: "string \<Rightarrow> nat option" where
  "py_digits s =
     (case s of
        [] \<Rightarrow> None
      | c # cs \<Rightarrow> if is_digit c then digits_acc (digit_val c) cs else None)"

definition py_int :: "string \<Rightarrow> int option" where
  "py_int s =
     (case strip s of
        [] \<Rightarrow> None
      | c # cs \<Rightarrow>
          if c = CHR ''-'' then map_option (\<lambda>n. - int n) (py_digits cs)
          else if c = CHR ''+'' then map_option int (py_digits cs)
          else map_option int (py_digits (c # cs)))"

section \<open>The Range header\<close>

text \<open>\<^verbatim>\<open>s.replace("bytes=", "")\<close>: every occurrence, scanning from the left.\<close>

function replace_bytes :: "string \<Rightarrow> string" where
  "replace_bytes [] = []"
| "replace_bytes (c # cs) =
     (if take 6 (c # cs) = ''bytes='' then replace_bytes (drop 5 cs)
      else c # replace_bytes cs)"
  by pat_completeness auto
termination
  by (relation "measure length") auto

text \<open>\<^verbatim>\<open>s.split(sep)\<close> for a one-character separator: the pieces between the
  separators, at least one piece.\<close>

fun split_char :: "char \<Rightarrow> string \<Rightarrow> string list" where
  "split_char sep [] = [[]]"
| "split_char sep (c # cs) =
     (if c = sep then [] # split_char sep cs
      else (case split_char sep cs of
              [] \<Rightarrow> [[c]]
            | p # ps \<Rightarrow> (c # p) # ps))"

text \<open>
  Lines 328 to 330 of \<^verbatim>\<open>stream_video\<close>: the start is read first (a bad number raises
  \<^verbatim>\<open>ValueError\<close>), then the second piece (a header with no dash raises
  \<^verbatim>\<open>IndexError\<close>); an empty piece takes its default.
\<close>

definition parse_range :: "string \<Rightarrow> int \<Rightarrow> error + (int \<times> int)" where
  "parse_range range_header fsize =
     (let byte_range = split_char CHR ''-'' (replace_bytes range_header) in
      case (if hd byte_range \<noteq> [] then py_int (hd byte_range) else Some 0) of
        None \<Rightarrow> Inl ValueError
      | Some start \<Rightarrow>
          (case tl byte_range of
             [] \<Rightarrow> Inl IndexError
           | e # _ \<Rightarrow>
               (case (if e \<noteq> [] then py_int e else Some (fsize - 1)) of
                  None \<Rightarrow> Inl ValueError
                | Some end \<Rightarrow> Inr (start, end))))"

section \<open>Streaming loops\<close>

text \<open>
  An open file is its content and a position; \<^verbatim>\<open>f.read(n)\<close> returns the next
  \<open>n\<close> bytes, fewer at the end of the file, and advances the position.
  \<open>iter_range\<close> is the loop of the partial-mode \<^verbatim>\<open>iterfile\<close> (lines 336 to 342),
  returning the chunks it yields.
\<close>

function iter_range :: "bytes \<Rightarrow> nat \<Rightarrow> int \<Rightarrow> bytes list" where
  "iter_range content pos remaining =
     (if remaining > 0 then
        (if take (nat (min (int CHUNK_SIZE) remaining)) (drop pos content) = [] then []
         else take (nat (min (int CHUNK_SIZE) remaining)) (drop pos content)
              # iter_range content
                  (pos + length (take (nat (min (int CHUNK_SIZE) remaining)) (drop pos content)))
                  (remaining - int (length (take (nat (min (int CHUNK_SIZE) remaining)) (drop pos content)))))
      else [])"
  by pat_completeness auto
termination
  by (relation "measure (\<lambda>(content, pos, remaining). nat remaining)") auto

declare iter_range.simps [simp del]

text \<open>
  The partial-mode generator: \<^verbatim>\<open>f.seek(start)\<close> raises \<^verbatim>\<open>OSError\<close> on a negative
  offset and accepts any offset past the end.
\<close>

definition iterfile_range :: "bytes \<Rightarrow> int \<Rightarrow> int \<Rightarrow> error + bytes list" where
  "iterfile_range content start end =
     (if start < 0 then Inl OSError
      else Inr (iter_range content (nat start) (end - start + 1)))"

text \<open>The full-mode loop (lines 355 and 356): read until a read returns nothing.\<close>

function iter_full :: "bytes \<Rightarrow> nat \<Rightarrow> bytes list" where
  "iter_full content pos =
     (if take CHUNK_SIZE (drop pos content) = [] then []
      else take CHUNK_SIZE (drop pos content)
           # iter_full content (pos + length (take CHUNK_SIZE (drop pos content))))"
  by pat_completeness auto
termination
  by (relation "measure (\<lambda>(content, pos). length content - pos)") (auto simp: CHUNK_SIZE_def)

declare iter_full.simps [simp del]

definition iterfile_full :: "bytes \<Rightarrow> error + bytes list" where
  "iterfile_full content = Inr (iter_full content 0)"


section \<open>Data model\<close>

text \<open>
  The two tables of \<^verbatim>\<open>src/main.py\<close> (lines 67 to 94). A nullable column is an
  \<open>option\<close>; a \<^verbatim>\<open>datetime\<close> is kept as its ISO rendering, so that
  \<^verbatim>\<open>isoformat()\<close> returns the stored value.
\<close>

record user =
  uid :: int
  username :: string
  email :: string
  hashed_password :: string
  created_at :: string

record video =
  video_id :: int
  title :: string
  description :: "string option"
  filename :: string
  original_filename :: string
  file_size :: int
  duration :: "int option"
  thumbnail_path :: "string option"
  processed :: bool
  processing_status :: string
  upload_date :: string
  views :: int
  user_id :: int

text \<open>
  A background task created by \<^verbatim>\<open>asyncio.create_task(process_video(...))\<close> is either
  scheduled and not yet run, or suspended in \<^verbatim>\<open>asyncio.sleep\<close> after its first commit.
\<close>

datatype phase = Scheduled | Sleeping

text \<open>
  The state the handlers share: the two tables, the files on disk by path, the next
  primary key of the \<^verbatim>\<open>videos\<close> table, and the background tasks by the video id
  they were created for. The key of a new row is the database's choice, not the
  program's; here keys are handed out in increasing order and never used twice, so a
  record keeps its identity and has at most one task.
\<close>

record state =
  users :: "user list"
  videos :: "video list"
  files :: "string \<rightharpoonup> bytes"
  next_id :: int
  tasks :: "int \<rightharpoonup> phase"

text \<open>A JSON value of a response body, and a response dictionary in the order written.\<close>

datatype json = JNull | JBool bool | JInt int | JStr string

type_synonym json_dict = "(string \<times> json) list"

definition json_opt_str :: "string option \<Rightarrow> json" where
  "json_opt_str s = (case s of None \<Rightarrow> JNull | Some x \<Rightarrow> JStr x)"

definition json_opt_int :: "int option \<Rightarrow> json" where
  "json_opt_int i = (case i of None \<Rightarrow> JNull | Some x \<Rightarrow> JInt x)"

text \<open>A \<^verbatim>\<open>StreamingResponse\<close>: the body is the list of chunks its generator yields, or
  the exception the generator raises.\<close>

record response =
  status_code :: nat
  media_type :: "string option"
  headers :: "(string \<times> string) list"
  body :: "error + bytes list"

text \<open>\<^verbatim>\<open>db.query(Video).filter(Video.id == video_id).first()\<close>\<close>

definition query_video :: "state \<Rightarrow> int \<Rightarrow> video option" where
  "query_video st vid = find (\<lambda>v. video_id v = vid) (videos st)"

text \<open>Attribute writes on the row with primary key \<open>vid\<close>, then \<^verbatim>\<open>db.commit()\<close>:
  one \<^verbatim>\<open>UPDATE ... WHERE id = vid\<close>.\<close>

definition db_update :: "state \<Rightarrow> int \<Rightarrow> (video \<Rightarrow> video) \<Rightarrow> state" where
  "db_update st vid f =
     st\<lparr>videos := map (\<lambda>v. if video_id v = vid then f v else v) (videos st)\<rparr>"

section \<open>Authentication\<close>

text \<open>
  \<^verbatim>\<open>jwt.decode\<close> is a library call: it raises \<^verbatim>\<open>PyJWTError\<close> or returns a payload,
  of which only \<^verbatim>\<open>payload.get("sub")\<close> is read. It is a parameter of the model.
\<close>

datatype jwt_result = PyJWTError | Payload "string option"

definition credentials_exception :: error where
  "credentials_exception = HTTPException 401 ''Could not validate credentials''"

definition get_current_user ::
  "(string option \<Rightarrow> jwt_result) \<Rightarrow> user list \<Rightarrow> string option \<Rightarrow> error + user" where
  "get_current_user decode us token =
     (case decode token of
        PyJWTError \<Rightarrow> Inl credentials_exception
      | Payload None \<Rightarrow> Inl credentials_exception
      | Payload (Some name) \<Rightarrow>
          (case find (\<lambda>u. username u = name) us of
             None \<Rightarrow> Inl credentials_exception
           | Some u \<Rightarrow> Inr u))"

section \<open>Upload\<close>

text \<open>
  \<^verbatim>\<open>Path(name).suffix\<close> on a POSIX path: the last component that is neither empty nor
  a single dot, and of it the part from the last dot on, unless that dot is its first or
  its last character.
\<close>

definition path_name :: "string \<Rightarrow> string" where
  "path_name p =
     (case rev (filter (\<lambda>part. part \<noteq> [] \<and> part \<noteq> ''.'') (split_char CHR ''/'' p)) of
        [] \<Rightarrow> []
      | part # _ \<Rightarrow> part)"

definition rfind :: "char \<Rightarrow> string \<Rightarrow> int" where
  "rfind c s =
     (if c \<in> set s then int (length s) - 1 - int (length (takeWhile (\<lambda>x. x \<noteq> c) (rev s)))
      else - 1)"

definition suffix :: "string \<Rightarrow> string" where
  "suffix p =
     (let name = path_name p; i = rfind CHR ''.'' name
      in if 0 < i \<and> i < int (length name) - 1 then drop (nat i) name else [])"

text \<open>
  \<^verbatim>\<open>str.lower()\<close> on the ASCII letters. Every other byte is kept as it is; Python
  also lower-cases the letters outside ASCII, which this byte-level model does not follow.
\<close>

definition lower_char :: "char \<Rightarrow> char" where
  "lower_char c =
     (case map_of (zip ''ABCDEFGHIJKLMNOPQRSTUVWXYZ'' ''abcdefghijklmnopqrstuvwxyz'') c of
        None \<Rightarrow> c
      | Some l \<Rightarrow> l)"

definition lower :: "string \<Rightarrow> string" where
  "lower s = map lower_char s"

definition allowed_extensions :: "string set" where
  "allowed_extensions = {''.mp4'', ''.avi'', ''.mov'', ''.mkv'', ''.webm'', ''.flv''}"

text \<open>
  What a request meets outside the program: the token decoder, the value
  \<^verbatim>\<open>uuid.uuid4()\<close> returns, the clock, and the disk, which either takes every write or
  raises \<^verbatim>\<open>OSError\<close> at the write call of a given index (counted from 0).
\<close>

record env =
  jwt_decode :: "string option \<Rightarrow> jwt_result"
  uuid4 :: string
  utcnow :: string
  write_fails_at :: "nat option"

text \<open>
  The loop of lines 237 to 241 on a file just opened for writing: \<open>k\<close> counts the
  write calls made, \<open>input\<close> is what is left of the upload, \<open>written\<close> the content of
  the file on disk and \<open>n\<close> the running \<^verbatim>\<open>file_size\<close>. It returns the final
  \<^verbatim>\<open>file_size\<close>, or the exception, and the content on disk either way.
\<close>

function save_chunks ::
  "nat option \<Rightarrow> nat \<Rightarrow> bytes \<Rightarrow> bytes \<Rightarrow> int \<Rightarrow> (error + int) \<times> bytes" where
  "save_chunks wfail k input written n =
     (if take CHUNK_SIZE input = [] then (Inr n, written)
      else if wfail = Some k then (Inl OSError, written)
      else save_chunks wfail (Suc k) (drop CHUNK_SIZE input)
             (written @ take CHUNK_SIZE input) (n + int (length (take CHUNK_SIZE input))))"
  by pat_completeness auto
termination
  by (relation "measure (\<lambda>(wfail, k, input, written, n). length input)")
     (auto simp: CHUNK_SIZE_def)

declare save_chunks.simps [simp del]

record upload_file =
  file_filename :: string
  file_content :: bytes

text \<open>\<^verbatim>\<open>title or file.filename\<close>\<close>

definition title_or :: "string option \<Rightarrow> string \<Rightarrow> string" where
  "title_or t name = (case t of None \<Rightarrow> name | Some x \<Rightarrow> if x = [] then name else x)"

text \<open>
  \<^verbatim>\<open>upload_video\<close> (lines 215 to 263). Opening the file for writing creates it empty;
  the insert of the record fails with \<^verbatim>\<open>IntegrityError\<close> when the generated name is
  already a \<^verbatim>\<open>filename\<close> of the table (the column is unique). The columns not given
  take their defaults at the insert.
\<close>

definition upload_video ::
  "env \<Rightarrow> state \<Rightarrow> upload_file \<Rightarrow> string option \<Rightarrow> string option \<Rightarrow> string option
     \<Rightarrow> (error + json_dict) \<times> state" where
  "upload_video e st file title' description' token =
     (case get_current_user (jwt_decode e) (users st) token of
        Inl err \<Rightarrow> (Inl err, st)
      | Inr usr \<Rightarrow>
          (let file_ext = lower (suffix (file_filename file)) in
           if file_ext \<notin> allowed_extensions
           then (Inl (HTTPException 400 ''Invalid file type''), st)
           else
             (let unique_filename = uuid4 e @ file_ext;
                  file_path = upload_path unique_filename;
                  saved = save_chunks (write_fails_at e) 0 (file_content file) [] 0;
                  st1 = st\<lparr>files := (files st)(file_path \<mapsto> snd saved)\<rparr>
              in case fst saved of
                   Inl err \<Rightarrow> (Inl err, st1)
                 | Inr n \<Rightarrow>
                     if \<exists>v \<in> set (videos st). filename v = unique_filename
                     then (Inl IntegrityError, st1)
                     else
                       (let new_video =
                              \<lparr>video_id = next_id st,
                               title = title_or title' (file_filename file),
                               description = description',
                               filename = unique_filename,
                               original_filename = file_filename file,
                               file_size = n,
                               duration = None,
                               thumbnail_path = None,
                               processed = False,
                               processing_status = ''pending'',
                               upload_date = utcnow e,
                               views = 0,
                               user_id = uid usr\<rparr>
                        in (Inr [(''message'', JStr ''Video uploaded successfully''),
                                 (''video_id'', JInt (next_id st)),
                                 (''status'', JStr ''processing'')],
                            st1\<lparr>videos := videos st @ [new_video],
                                next_id := next_id st + 1,
                                tasks := (tasks st)(next_id st \<mapsto> Scheduled)\<rparr>)))))"

section \<open>Background processing\<close>

text \<open>
  \<^verbatim>\<open>process_video\<close> (lines 147 to 176) commits twice, with a suspension in between,
  so it is three transitions: up to the first commit, from the sleep to the second
  commit, and the \<^verbatim>\<open>except\<close> branch, which can be entered from either.
\<close>

definition process_video_begin :: "state \<Rightarrow> int \<Rightarrow> state" where
  "process_video_begin st vid =
     (case query_video st vid of
        None \<Rightarrow> st\<lparr>tasks := (tasks st)(vid := None)\<rparr>
      | Some v \<Rightarrow>
          (db_update st vid (\<lambda>v. v\<lparr>processing_status := ''processing''\<rparr>))
            \<lparr>tasks := (tasks st)(vid \<mapsto> Sleeping)\<rparr>)"

definition process_video_finish :: "state \<Rightarrow> int \<Rightarrow> state" where
  "process_video_finish st vid =
     (db_update st vid
        (\<lambda>v. v\<lparr>duration := Some 120,
                processed := True,
                processing_status := ''completed'',
                thumbnail_path := Some (''thumbnails/'' @ filename v @ ''.jpg'')\<rparr>))
       \<lparr>tasks := (tasks st)(vid := None)\<rparr>"

definition process_video_except :: "state \<Rightarrow> int \<Rightarrow> string \<Rightarrow> state" where
  "process_video_except st vid msg =
     (case query_video st vid of
        None \<Rightarrow> st\<lparr>tasks := (tasks st)(vid := None)\<rparr>
      | Some v \<Rightarrow>
          (db_update st vid (\<lambda>v. v\<lparr>processing_status := ''failed: '' @ msg\<rparr>))
            \<lparr>tasks := (tasks st)(vid := None)\<rparr>)"

section \<open>Metadata, streaming and deletion\<close>

text \<open>\<^verbatim>\<open>get_video_info\<close> (lines 291 to 305).\<close>

definition get_video_info :: "state \<Rightarrow> int \<Rightarrow> (error + json_dict) \<times> state" where
  "get_video_info st vid =
     (case query_video st vid of
        None \<Rightarrow> (Inl (HTTPException 404 ''Video not found''), st)
      | Some v \<Rightarrow>
          (Inr [(''id'', JInt (video_id v)),
                (''title'', JStr (title v)),
                (''description'', json_opt_str (description v)),
                (''duration'', json_opt_int (duration v)),
                (''views'', JInt (views v)),
                (''upload_date'', JStr (upload_date v)),
                (''processed'', JBool (processed v))],
           st))"

text \<open>
  \<^verbatim>\<open>stream_video\<close> (lines 308 to 360). The view counter is committed before the
  header is looked at; an empty header value counts as no header.
\<close>

definition stream_video :: "state \<Rightarrow> int \<Rightarrow> string option \<Rightarrow> (error + response) \<times> state" where
  "stream_video st vid range_header =
     (case query_video st vid of
        None \<Rightarrow> (Inl (HTTPException 404 ''Video not found''), st)
      | Some v \<Rightarrow>
          (case files st (upload_path (filename v)) of
             None \<Rightarrow> (Inl (HTTPException 404 ''Video file not found''), st)
           | Some content \<Rightarrow>
               (let st1 = db_update st vid (\<lambda>v. v\<lparr>views := views v + 1\<rparr>);
                    fsize = int (length content)
                in if range_header \<noteq> None \<and> range_header \<noteq> Some []
                   then
                     (case parse_range (the range_header) fsize of
                        Inl err \<Rightarrow> (Inl err, st1)
                      | Inr (start, end) \<Rightarrow>
                          (Inr \<lparr>status_code = 206,
                                media_type = None,
                                headers =
                                  [(''Content-Range'',
                                      ''bytes '' @ str_int start @ ''-'' @ str_int end
                                        @ ''/'' @ str_int fsize),
                                   (''Accept-Ranges'', ''bytes''),
                                   (''Content-Length'', str_int (end - start + 1)),
                                   (''Content-Type'', ''video/mp4'')],
                                body = iterfile_range content start end\<rparr>,
                           st1))
                   else
                     (Inr \<lparr>status_code = 200,
                           media_type = Some ''video/mp4'',
                           headers = [(''Content-Length'', str_int fsize)],
                           body = iterfile_full content\<rparr>,
                      st1))))"

text \<open>\<^verbatim>\<open>delete_video\<close> (lines 363 to 382).\<close>

definition delete_video ::
  "(string option \<Rightarrow> jwt_result) \<Rightarrow> state \<Rightarrow> int \<Rightarrow> string \<Rightarrow> (error + json_dict) \<times> state" where
  "delete_video decode st vid token =
     (case get_current_user decode (users st) (Some token) of
        Inl err \<Rightarrow> (Inl err, st)
      | Inr usr \<Rightarrow>
          (case find (\<lambda>v. video_id v = vid \<and> user_id v = uid usr) (videos st) of
             None \<Rightarrow> (Inl (HTTPException 404 ''Video not found''), st)
           | Some v \<Rightarrow>
               (Inr [(''message'', JStr ''Video deleted successfully'')],
                st\<lparr>files := (files st)(upload_path (filename v) := None),
                   videos := filter (\<lambda>w. video_id w \<noteq> video_id v) (videos st)\<rparr>)))"

section \<open>The system as a transition relation\<close>

text \<open>
  One step is one request handled, or one transition of a background task that exists.
  \<open>Accounts\<close> covers registration, which touches the \<^verbatim>\<open>users\<close> table only.
\<close>

inductive step :: "state \<Rightarrow> state \<Rightarrow> bool" where
  Upload: "upload_video e st file t d token = (r, st') \<Longrightarrow> step st st'"
| Stream: "stream_video st vid hdr = (r, st') \<Longrightarrow> step st st'"
| Info: "get_video_info st vid = (r, st') \<Longrightarrow> step st st'"
| Delete: "delete_video decode st vid tok = (r, st') \<Longrightarrow> step st st'"
| Accounts: "step st (st\<lparr>users := us\<rparr>)"
| Worker_begin: "tasks st vid = Some Scheduled \<Longrightarrow> step st (process_video_begin st vid)"
| Worker_finish: "tasks st vid = Some Sleeping \<Longrightarrow> step st (process_video_finish st vid)"
| Worker_except: "tasks st vid = Some ph \<Longrightarrow> step st (process_video_except st vid msg)"

text \<open>The states the system can be in, from an empty \<^verbatim>\<open>videos\<close> table.\<close>

inductive reachable :: "state \<Rightarrow> bool" where
  Init: "reachable \<lparr>users = us, videos = [], files = fs, next_id = 1, tasks = Map.empty\<rparr>"
| Step: "reachable st \<Longrightarrow> step st st' \<Longrightarrow> reachable st'"



definition completed_inv :: "state \<Rightarrow> bool" where
  "completed_inv st =
     (\<forall>v \<in> set (videos st).
        processing_status v = ''completed'' \<longrightarrow> duration v \<noteq> None \<and> thumbnail_path v \<noteq> None)"


section \<open>A small concrete state\<close>

text \<open>One user, one video of five bytes just uploaded, its task not yet run.\<close>

definition demo_user :: user where
  "demo_user = \<lparr>uid = 7, username = ''ann'', email = ''ann@example.org'',
                 hashed_password = ''x'', created_at = ''2024-01-01T00:00:00''\<rparr>"

definition demo_video :: video where
  "demo_video =
     \<lparr>video_id = 1, title = ''clip'', description = None, filename = ''u1.mp4'',
      original_filename = ''clip.mp4'', file_size = 5, duration = None,
      thumbnail_path = None, processed = False, processing_status = ''pending'',
      upload_date = ''2024-01-02T00:00:00'', views = 0, user_id = 7\<rparr>"

definition demo_state :: state where
  "demo_state =
     \<lparr>users = [demo_user], videos = [demo_video],
      files = [''uploads/u1.mp4'' \<mapsto> ''hello''], next_id = 2,
      tasks = [1 \<mapsto> Scheduled]\<rparr>"

text \<open>
  An environment in which the token \<^verbatim>\<open>tok\<close> is the user's and the disk takes
  every write, and three uploads: one with an allowed extension in upper case, one with
  an extension outside the list, and one of a chunk and a byte.
\<close>

definition demo_env :: env where
  "demo_env =
     \<lparr>jwt_decode = (\<lambda>t. if t = Some ''tok'' then Payload (Some ''ann'') else PyJWTError),
      uuid4 = ''u2'', utcnow = ''2024-01-03T00:00:00'', write_fails_at = None\<rparr>"

definition demo_upload :: upload_file where
  "demo_upload = \<lparr>file_filename = ''Holiday.MP4'', file_content = ''movie''\<rparr>"


definition demo_big :: upload_file where
  "demo_big = \<lparr>file_filename = ''big.mkv'',
                file_content = replicate (CHUNK_SIZE + 1) CHR ''x''\<rparr>"

text \<open>
  A run from the empty table: the upload, the two transitions of its task, and a
  full-mode stream of the completed video.
\<close>

definition demo_init :: state where
  "demo_init = \<lparr>users = [demo_user], videos = [], files = Map.empty, next_id = 1,
                 tasks = Map.empty\<rparr>"

definition demo_uploaded :: state where
  "demo_uploaded = snd (upload_video demo_env demo_init demo_upload None None (Some ''tok''))"

definition demo_claimed :: state where
  "demo_claimed = process_video_begin demo_uploaded 1"

definition demo_done :: state where
  "demo_done = process_video_finish demo_claimed 1"


definition demo_new :: video where
  "demo_new =
     \<lparr>video_id = 1, title = ''Holiday.MP4'', description = None, filename = ''u2.mp4'',
      original_filename = ''Holiday.MP4'', file_size = 5, duration = None,
      thumbnail_path = None, processed = False, processing_status = ''pending'',
      upload_date = ''2024-01-03T00:00:00'', views = 0, user_id = 7\<rparr>"

definition demo_finished :: video where
  "demo_finished =
     demo_new\<lparr>duration := Some 120, processed := True, processing_status := ''completed'',
              thumbnail_path := Some ''thumbnails/u2.mp4.jpg''\<rparr>"

section \<open>Properties of the streaming loops\<close>

lemma take_length_take: "take (length (take k xs)) xs = take k xs"
  by (cases "k \<le> length xs") (simp_all add: min_def)


lemma iter_full_concat: "concat (iter_full content pos) = drop pos content"
proof (induction content pos rule: iter_full.induct)
  case (1 content pos)
  show ?case
  proof (cases "take CHUNK_SIZE (drop pos content) = []")
    case True
    then have "drop pos content = []"
      by (cases "drop pos content") (auto simp: CHUNK_SIZE_def)
    with True show ?thesis by (simp add: iter_full.simps)
  next
    case False
    let ?m = "length (take CHUNK_SIZE (drop pos content))"
    have "concat (iter_full content pos)
            = take CHUNK_SIZE (drop pos content) @ concat (iter_full content (pos + ?m))"
      using False by (subst iter_full.simps) simp
    also have "\<dots> = take ?m (drop pos content) @ drop ?m (drop pos content)"
    proof -
      have "drop (pos + ?m) content = drop ?m (drop pos content)"
        by (simp add: add.commute)
      then show ?thesis
        using "1.IH" [OF False] by (simp only: take_length_take)
    qed
    also have "\<dots> = drop pos content" by (rule append_take_drop_id)
    finally show ?thesis .
  qed
qed

section \<open>Range requests\<close>






lemma find_map_update:
  assumes "find P xs = Some x" and "\<And>y. P (f y) = P y"
  shows "find P (map (\<lambda>y. if P y then f y else y) xs) = Some (f x)"
  using assms by (induction xs) (auto split: if_splits)

lemma query_video_db_update:
  assumes "query_video st vid = Some v" and "\<And>w. video_id (f w) = video_id w"
  shows "query_video (db_update st vid f) vid = Some (f v)"
  using find_map_update [of "\<lambda>w. video_id w = vid" "videos st" v f] assms
  by (simp add: query_video_def db_update_def)



lemma stream_video_full:
  assumes "query_video st vid = Some v"
    and "files st (upload_path (filename v)) = Some content"
    and "hdr = None \<or> hdr = Some []"
  shows "stream_video st vid hdr =
           (Inr \<lparr>status_code = 200, media_type = Some ''video/mp4'',
                 headers = [(''Content-Length'', str_int (int (length content)))],
                 body = iterfile_full content\<rparr>,
            db_update st vid (\<lambda>v. v\<lparr>views := views v + 1\<rparr>))"
  using assms by (auto simp: stream_video_def Let_def)

text \<open>
  Claim C3. A request with no Range header (or an empty one) for a video whose record
  and file exist is answered 200; the chunks of the body add up to the size of the file,
  and that number is what the Content-Length header declares.
\<close>

theorem full_stream_delivers_file:
  assumes "query_video st vid = Some v"
    and "files st (upload_path (filename v)) = Some content"
    and "hdr = None \<or> hdr = Some []"
  shows "\<exists>resp chunks st'.
           stream_video st vid hdr = (Inr resp, st') \<and>
           status_code resp = 200 \<and>
           body resp = Inr chunks \<and>
           length (concat chunks) = length content \<and>
           map_of (headers resp) ''Content-Length''
             = Some (str_int (int (length (concat chunks))))"
  using stream_video_full [OF assms]
  by (simp add: iterfile_full_def iter_full_concat)



lemma demo_query: "query_video demo_state 1 = Some demo_video"
  by (simp add: query_video_def demo_state_def demo_video_def)

lemma demo_file: "files demo_state (upload_path (filename demo_video)) = Some ''hello''"
  by (simp add: demo_state_def demo_video_def upload_path_def UPLOAD_DIR_def)




theorem full_stream_witness:
  "query_video demo_state 1 = Some demo_video \<and>
   files demo_state (upload_path (filename demo_video)) = Some ''hello'' \<and>
   (\<exists>resp chunks st'.
      stream_video demo_state 1 None = (Inr resp, st') \<and>
      status_code resp = 200 \<and>
      body resp = Inr chunks \<and>
      length (concat chunks) = length ''hello'' \<and>
      map_of (headers resp) ''Content-Length''
        = Some (str_int (int (length (concat chunks)))))"
  using full_stream_delivers_file [of demo_state 1 demo_video "''hello''" None]
    demo_query demo_file
  by simp




section \<open>Metadata query\<close>

text \<open>
  Claim C10. For an existing video the metadata query returns the fields of the stored
  record and hands back the state it was given: no field of any record, the view counter
  and the processing status included, is changed.
\<close>

theorem get_video_info_pure_read:
  assumes "query_video st vid = Some v"
  shows "\<exists>info.
           get_video_info st vid = (Inr info, st) \<and>
           info = [(''id'', JInt (video_id v)),
                   (''title'', JStr (title v)),
                   (''description'', json_opt_str (description v)),
                   (''duration'', json_opt_int (duration v)),
                   (''views'', JInt (views v)),
                   (''upload_date'', JStr (upload_date v)),
                   (''processed'', JBool (processed v))] \<and>
           query_video (snd (get_video_info st vid)) vid = Some v"
  using assms by (simp add: get_video_info_def)

theorem get_video_info_witness:
  "query_video demo_state 1 = Some demo_video \<and>
   (\<exists>info.
      get_video_info demo_state 1 = (Inr info, demo_state) \<and>
      info = [(''id'', JInt 1),
              (''title'', JStr ''clip''),
              (''description'', JNull),
              (''duration'', JNull),
              (''views'', JInt 0),
              (''upload_date'', JStr ''2024-01-02T00:00:00''),
              (''processed'', JBool False)] \<and>
      query_video (snd (get_video_info demo_state 1)) 1 = Some demo_video)"
  using get_video_info_pure_read [of demo_state 1 demo_video] demo_query
  by (simp add: demo_video_def json_opt_str_def json_opt_int_def)

section \<open>Upload\<close>

lemma save_chunks_result:
  "save_chunks wfail k input written n = (Inr m, w)
     \<Longrightarrow> m = n + int (length input) \<and> w = written @ input"
proof (induction wfail k input written n rule: save_chunks.induct)
  case (1 wfail k input written n)
  show ?case
  proof (cases "take CHUNK_SIZE input = []")
    case True
    then have "input = []" by (cases input) (auto simp: CHUNK_SIZE_def)
    with "1.prems" show ?thesis by (simp add: save_chunks.simps)
  next
    case False
    with "1.prems" have nofail: "wfail \<noteq> Some k"
      by (auto simp: save_chunks.simps [of wfail k input])
    with False "1.prems" have
      "save_chunks wfail (Suc k) (drop CHUNK_SIZE input) (written @ take CHUNK_SIZE input)
         (n + int (length (take CHUNK_SIZE input))) = (Inr m, w)"
      by (simp add: save_chunks.simps [of wfail k input])
    from "1.IH" [OF False nofail this]
    have "m = n + int (length (take CHUNK_SIZE input)) + int (length (drop CHUNK_SIZE input))"
      and "w = (written @ take CHUNK_SIZE input) @ drop CHUNK_SIZE input"
      by simp_all
    then show ?thesis by (simp add: min_def)
  qed
qed

lemma save_chunks_None:
  "save_chunks None k input written n = (Inr (n + int (length input)), written @ input)"
proof (induction "None :: nat option" k input written n rule: save_chunks.induct)
  case (1 k input written n)
  show ?case
  proof (cases "take CHUNK_SIZE input = []")
    case True
    then have "input = []" by (cases input) (auto simp: CHUNK_SIZE_def)
    then show ?thesis by (simp add: save_chunks.simps)
  next
    case False
    have "save_chunks None k input written n =
            save_chunks None (Suc k) (drop CHUNK_SIZE input) (written @ take CHUNK_SIZE input)
              (n + int (length (take CHUNK_SIZE input)))"
      using False by (simp add: save_chunks.simps [of None k input])
    also have "\<dots> = (Inr (n + int (length (take CHUNK_SIZE input))
                              + int (length (drop CHUNK_SIZE input))),
                        (written @ take CHUNK_SIZE input) @ drop CHUNK_SIZE input)"
      using "1.hyps" [OF False] by simp
    also have "\<dots> = (Inr (n + int (length input)), written @ input)"
      by (simp add: min_def)
    finally show ?thesis .
  qed
qed

lemma save_chunks_fail:
  "k \<le> j \<Longrightarrow> (j - k) * CHUNK_SIZE < length input
     \<Longrightarrow> save_chunks (Some j) k input written n
           = (Inl OSError, written @ take ((j - k) * CHUNK_SIZE) input)"
proof (induction "Some j" k input written n rule: save_chunks.induct)
  case (1 k input written n)
  from "1.prems" have nonempty: "take CHUNK_SIZE input \<noteq> []"
    by (cases input) (auto simp: CHUNK_SIZE_def)
  show ?case
  proof (cases "j = k")
    case True
    with nonempty show ?thesis by (subst save_chunks.simps) simp
  next
    case False
    with "1.prems" have lt: "Suc k \<le> j" by simp
    have "j - k = Suc (j - Suc k)" using lt by arith
    then have split: "(j - k) * CHUNK_SIZE = CHUNK_SIZE + (j - Suc k) * CHUNK_SIZE"
      by simp
    have rest: "(j - Suc k) * CHUNK_SIZE < length (drop CHUNK_SIZE input)"
      using "1.prems"(2) split by simp
    have ne: "Some j \<noteq> Some k" using False by simp
    have "save_chunks (Some j) k input written n =
            save_chunks (Some j) (Suc k) (drop CHUNK_SIZE input)
              (written @ take CHUNK_SIZE input) (n + int (length (take CHUNK_SIZE input)))"
      using nonempty False by (simp add: save_chunks.simps [of "Some j" k input])
    also have "\<dots> = (Inl OSError, (written @ take CHUNK_SIZE input)
                          @ take ((j - Suc k) * CHUNK_SIZE) (drop CHUNK_SIZE input))"
      using "1.hyps" [OF nonempty ne lt rest] .
    also have "\<dots> = (Inl OSError, written @ take ((j - k) * CHUNK_SIZE) input)"
      by (simp only: split take_add append_assoc)
    finally show ?thesis .
  qed
qed

lemma upload_video_unauthenticated:
  "get_current_user (jwt_decode e) (users st) token = Inl err
     \<Longrightarrow> upload_video e st file t d token = (Inl err, st)"
  by (simp add: upload_video_def)

lemma upload_video_bad_extension:
  "get_current_user (jwt_decode e) (users st) token = Inr usr
     \<Longrightarrow> lower (suffix (file_filename file)) \<notin> allowed_extensions
     \<Longrightarrow> upload_video e st file t d token = (Inl (HTTPException 400 ''Invalid file type''), st)"
  by (simp add: upload_video_def)

lemma upload_video_saved:
  assumes "get_current_user (jwt_decode e) (users st) token = Inr usr"
    and "lower (suffix (file_filename file)) \<in> allowed_extensions"
    and "save_chunks (write_fails_at e) 0 (file_content file) [] 0 = (Inr n, w)"
    and "uuid4 e @ lower (suffix (file_filename file)) \<notin> filename ` set (videos st)"
  shows "upload_video e st file t d token =
           (Inr [(''message'', JStr ''Video uploaded successfully''),
                 (''video_id'', JInt (next_id st)),
                 (''status'', JStr ''processing'')],
            st\<lparr>files := (files st)
                   (upload_path (uuid4 e @ lower (suffix (file_filename file))) \<mapsto> w),
               videos := videos st @
                 [\<lparr>video_id = next_id st,
                   title = title_or t (file_filename file),
                   description = d,
                   filename = uuid4 e @ lower (suffix (file_filename file)),
                   original_filename = file_filename file,
                   file_size = n,
                   duration = None,
                   thumbnail_path = None,
                   processed = False,
                   processing_status = ''pending'',
                   upload_date = utcnow e,
                   views = 0,
                   user_id = uid usr\<rparr>],
               next_id := next_id st + 1,
               tasks := (tasks st)(next_id st \<mapsto> Scheduled)\<rparr>)"
proof -
  have "\<not> (\<exists>v \<in> set (videos st). filename v = uuid4 e @ lower (suffix (file_filename file)))"
    using assms(4) by force
  with assms(1-3) show ?thesis
    by (simp add: upload_video_def Let_def)
qed

lemma upload_video_write_error:
  assumes "get_current_user (jwt_decode e) (users st) token = Inr usr"
    and "lower (suffix (file_filename file)) \<in> allowed_extensions"
    and "save_chunks (write_fails_at e) 0 (file_content file) [] 0 = (Inl err, w)"
  shows "upload_video e st file t d token =
           (Inl err,
            st\<lparr>files := (files st)
                   (upload_path (uuid4 e @ lower (suffix (file_filename file))) \<mapsto> w)\<rparr>)"
  using assms by (simp add: upload_video_def Let_def)

lemma upload_video_name_clash:
  assumes "get_current_user (jwt_decode e) (users st) token = Inr usr"
    and "lower (suffix (file_filename file)) \<in> allowed_extensions"
    and "save_chunks (write_fails_at e) 0 (file_content file) [] 0 = (Inr n, w)"
    and "uuid4 e @ lower (suffix (file_filename file)) \<in> filename ` set (videos st)"
  shows "upload_video e st file t d token =
           (Inl IntegrityError,
            st\<lparr>files := (files st)
                   (upload_path (uuid4 e @ lower (suffix (file_filename file))) \<mapsto> w)\<rparr>)"
  using assms by (auto simp: upload_video_def Let_def)

text \<open>Every outcome of an upload, for the invariants of the transition system.\<close>

lemma upload_video_cases:
  assumes "upload_video e st file t d token = (r, st')"
  shows "(\<exists>fs. st' = st\<lparr>files := fs\<rparr>) \<or>
         (\<exists>fs v. st' = st\<lparr>files := fs, videos := videos st @ [v],
                            next_id := next_id st + 1,
                            tasks := (tasks st)(next_id st \<mapsto> Scheduled)\<rparr> \<and>
                 video_id v = next_id st \<and> processing_status v = ''pending'' \<and>
                 filename v \<notin> filename ` set (videos st))"
proof (cases "get_current_user (jwt_decode e) (users st) token")
  case (Inl err)
  from upload_video_unauthenticated [OF this] assms have "st' = st" by simp
  then have "st' = st\<lparr>files := files st\<rparr>" by simp
  then show ?thesis by blast
next
  case (Inr usr)
  show ?thesis
  proof (cases "lower (suffix (file_filename file)) \<in> allowed_extensions")
    case False
    from upload_video_bad_extension [OF Inr this] assms have "st' = st\<lparr>files := files st\<rparr>"
      by simp
    then show ?thesis by blast
  next
    case True
    obtain res w where sv:
      "save_chunks (write_fails_at e) 0 (file_content file) [] 0 = (res, w)"
      by (cases "save_chunks (write_fails_at e) 0 (file_content file) [] 0")
    show ?thesis
    proof (cases res)
      case (Inl err)
      from upload_video_write_error [OF Inr True sv [unfolded Inl]] assms
      show ?thesis by auto
    next
      case n: (Inr n)
      show ?thesis
      proof (cases "uuid4 e @ lower (suffix (file_filename file)) \<in> filename ` set (videos st)")
        case True
        from upload_video_name_clash [OF Inr \<open>lower (suffix (file_filename file)) \<in> allowed_extensions\<close> sv [unfolded n] True] assms
        show ?thesis by auto
      next
        case False
        from upload_video_saved [OF Inr True sv [unfolded n] False, of t d] assms
        have "st' = st\<lparr>files := (files st)
                   (upload_path (uuid4 e @ lower (suffix (file_filename file))) \<mapsto> w),
               videos := videos st @
                 [\<lparr>video_id = next_id st,
                   title = title_or t (file_filename file),
                   description = d,
                   filename = uuid4 e @ lower (suffix (file_filename file)),
                   original_filename = file_filename file,
                   file_size = n,
                   duration = None,
                   thumbnail_path = None,
                   processed = False,
                   processing_status = ''pending'',
                   upload_date = utcnow e,
                   views = 0,
                   user_id = uid usr\<rparr>],
               next_id := next_id st + 1,
               tasks := (tasks st)(next_id st \<mapsto> Scheduled)\<rparr>" by simp
        with False show ?thesis
          by (intro disjI2 exI conjI) (assumption | simp)+
      qed
    qed
  qed
qed

lemma demo_auth: "get_current_user (jwt_decode demo_env) (users demo_state) (Some ''tok'') = Inr demo_user"
  by (simp add: get_current_user_def demo_env_def demo_state_def demo_user_def)

lemma demo_upload_ext: "lower (suffix (file_filename demo_upload)) = ''.mp4''"
  by (simp add: demo_upload_def suffix_def path_name_def rfind_def lower_def lower_char_def)


lemma demo_big_ext: "lower (suffix (file_filename demo_big)) = ''.mkv''"
  by (simp add: demo_big_def suffix_def path_name_def rfind_def lower_def lower_char_def)

lemma demo_upload_path:
  "upload_path (uuid4 demo_env @ lower (suffix (file_filename demo_upload))) = ''uploads/u2.mp4''"
  by (simp add: demo_upload_ext demo_env_def upload_path_def UPLOAD_DIR_def)

lemma demo_big_path:
  "upload_path (uuid4 (demo_env\<lparr>write_fails_at := Some 1\<rparr>)
     @ lower (suffix (file_filename demo_big))) = ''uploads/u2.mkv''"
  by (simp add: demo_big_ext demo_env_def upload_path_def UPLOAD_DIR_def)


lemma demo_upload_content: "file_content demo_upload = ''movie''"
  by (simp add: demo_upload_def)

lemma demo_big_prefix:
  "take (1 * CHUNK_SIZE) (file_content demo_big) = replicate CHUNK_SIZE CHR ''x''"
proof -
  have "take CHUNK_SIZE (replicate (CHUNK_SIZE + 1) CHR ''x'')
          = replicate (min CHUNK_SIZE (CHUNK_SIZE + 1)) CHR ''x''"
    by (rule take_replicate)
  then show ?thesis by (simp add: demo_big_def)
qed



text \<open>
  Claim C6. Every upload that succeeds appends one record, the one whose id the response
  carries; its \<open>file_size\<close> is the number of bytes of the input stream, and these are
  the bytes of the file on disk under the record's \<open>filename\<close>. No declared size
  enters the computation.
\<close>

theorem upload_records_observed_size:
  assumes "upload_video e st file t d token = (Inr resp, st')"
  shows "\<exists>v. videos st' = videos st @ [v] \<and>
             map_of resp ''video_id'' = Some (JInt (video_id v)) \<and>
             file_size v = int (length (file_content file)) \<and>
             files st' (upload_path (filename v)) = Some (file_content file)"
proof (cases "get_current_user (jwt_decode e) (users st) token")
  case (Inl err)
  from upload_video_unauthenticated [OF this] assms show ?thesis by simp
next
  case (Inr usr)
  show ?thesis
  proof (cases "lower (suffix (file_filename file)) \<in> allowed_extensions")
    case False
    from upload_video_bad_extension [OF Inr this] assms show ?thesis by simp
  next
    case True
    obtain res w where sv:
      "save_chunks (write_fails_at e) 0 (file_content file) [] 0 = (res, w)"
      by (cases "save_chunks (write_fails_at e) 0 (file_content file) [] 0")
    show ?thesis
    proof (cases res)
      case (Inl err)
      from upload_video_write_error [OF Inr True sv [unfolded Inl]] assms
      show ?thesis by simp
    next
      case n: (Inr n)
      from save_chunks_result [OF sv [unfolded n]]
      have n_eq: "n = int (length (file_content file))" and w_eq: "w = file_content file"
        by simp_all
      show ?thesis
      proof (cases "uuid4 e @ lower (suffix (file_filename file)) \<in> filename ` set (videos st)")
        case clash: True
        from upload_video_name_clash [OF Inr True sv [unfolded n] clash] assms
        show ?thesis by simp
      next
        case False
        from upload_video_saved [OF Inr True sv [unfolded n] False, of t d] assms n_eq w_eq
        show ?thesis by auto
      qed
    qed
  qed
qed

theorem upload_records_observed_size_witness:
  "(\<exists>resp st'.
      upload_video demo_env demo_state demo_upload None None (Some ''tok'') = (Inr resp, st') \<and>
      (\<exists>v. videos st' = videos demo_state @ [v] \<and>
           map_of resp ''video_id'' = Some (JInt (video_id v)) \<and>
           file_size v = 5 \<and>
           files st' (upload_path (filename v)) = Some ''movie''))"
proof -
  have sv: "save_chunks (write_fails_at demo_env) 0 (file_content demo_upload) [] 0
              = (Inr 5, ''movie'')"
    by (simp add: demo_env_def demo_upload_def save_chunks_None)
  have ext: "lower (suffix (file_filename demo_upload)) \<in> allowed_extensions"
    by (simp add: demo_upload_ext allowed_extensions_def)
  have fresh: "uuid4 demo_env @ lower (suffix (file_filename demo_upload))
                 \<notin> filename ` set (videos demo_state)"
    by (simp add: demo_upload_ext demo_env_def demo_state_def demo_video_def)
  obtain resp st' where up:
    "upload_video demo_env demo_state demo_upload None None (Some ''tok'') = (Inr resp, st')"
    using upload_video_saved [OF demo_auth ext sv fresh, of None None] by simp
  from upload_records_observed_size [OF up] up show ?thesis
    by (simp add: demo_upload_content)
qed

lemma upload_video_fails_at:
  assumes "get_current_user (jwt_decode e) (users st) token = Inr usr"
    and "lower (suffix (file_filename file)) \<in> allowed_extensions"
    and "write_fails_at e = Some k"
    and "k * CHUNK_SIZE < length (file_content file)"
  shows "upload_video e st file t d token =
           (Inl OSError,
            st\<lparr>files := (files st)
                   (upload_path (uuid4 e @ lower (suffix (file_filename file)))
                      \<mapsto> take (k * CHUNK_SIZE) (file_content file))\<rparr>)"
proof -
  have "save_chunks (write_fails_at e) 0 (file_content file) [] 0
          = (Inl OSError, take (k * CHUNK_SIZE) (file_content file))"
    using save_chunks_fail [of 0 k "file_content file" "[]" 0] assms(3,4) by simp
  from upload_video_write_error [OF assms(1,2) this] show ?thesis .
qed

text \<open>
  Claim C5, as the code has it. When the write call of index \<open>k\<close> raises and the input
  has more than \<open>k\<close> chunks, the exception leaves the handler: the caller gets the
  failure, no record and no task is created, and the file stays in storage with the
  \<open>k\<close> chunks written before the failure.
\<close>

theorem upload_write_failure_leaves_file:
  assumes "get_current_user (jwt_decode e) (users st) token = Inr usr"
    and "lower (suffix (file_filename file)) \<in> allowed_extensions"
    and "write_fails_at e = Some k"
    and "k * CHUNK_SIZE < length (file_content file)"
  shows "\<exists>st'.
           upload_video e st file t d token = (Inl OSError, st') \<and>
           videos st' = videos st \<and> tasks st' = tasks st \<and>
           files st' (upload_path (uuid4 e @ lower (suffix (file_filename file))))
             = Some (take (k * CHUNK_SIZE) (file_content file))"
  using upload_video_fails_at [OF assms] by simp

theorem upload_write_failure_witness:
  "get_current_user (jwt_decode (demo_env\<lparr>write_fails_at := Some 1\<rparr>)) (users demo_state)
     (Some ''tok'') = Inr demo_user \<and>
   lower (suffix (file_filename demo_big)) \<in> allowed_extensions \<and>
   1 * CHUNK_SIZE < length (file_content demo_big) \<and>
   (\<exists>st'.
      upload_video (demo_env\<lparr>write_fails_at := Some 1\<rparr>) demo_state demo_big None None
          (Some ''tok'') = (Inl OSError, st') \<and>
      videos st' = videos demo_state \<and> tasks st' = tasks demo_state \<and>
      files st' ''uploads/u2.mkv'' = Some (replicate CHUNK_SIZE CHR ''x''))"
proof -
  have auth: "get_current_user (jwt_decode (demo_env\<lparr>write_fails_at := Some 1\<rparr>))
                (users demo_state) (Some ''tok'') = Inr demo_user"
    using demo_auth by simp
  have ext: "lower (suffix (file_filename demo_big)) \<in> allowed_extensions"
    by (simp add: demo_big_ext allowed_extensions_def)
  have len: "1 * CHUNK_SIZE < length (file_content demo_big)"
    by (simp add: demo_big_def)
  have wf: "write_fails_at (demo_env\<lparr>write_fails_at := Some 1\<rparr>) = Some 1" by simp
  from upload_write_failure_leaves_file [OF auth ext wf len, of None None] auth ext len
  show ?thesis
    by (simp only: demo_big_path demo_big_prefix)
qed

text \<open>
  Claim C5 as stated fails: the second write of an upload of a chunk and a byte raises,
  and afterwards the path, free before, holds the first chunk.
\<close>

theorem upload_write_failure_counterexample:
  "fst (upload_video (demo_env\<lparr>write_fails_at := Some 1\<rparr>) demo_state demo_big None None
          (Some ''tok'')) = Inl OSError \<and>
   files demo_state ''uploads/u2.mkv'' = None \<and>
   files (snd (upload_video (demo_env\<lparr>write_fails_at := Some 1\<rparr>) demo_state demo_big
                 None None (Some ''tok''))) ''uploads/u2.mkv''
     = Some (replicate CHUNK_SIZE CHR ''x'')"
proof -
  have auth: "get_current_user (jwt_decode (demo_env\<lparr>write_fails_at := Some 1\<rparr>))
                (users demo_state) (Some ''tok'') = Inr demo_user"
    using demo_auth by simp
  have ext: "lower (suffix (file_filename demo_big)) \<in> allowed_extensions"
    by (simp add: demo_big_ext allowed_extensions_def)
  have len: "1 * CHUNK_SIZE < length (file_content demo_big)"
    by (simp add: demo_big_def)
  have wf: "write_fails_at (demo_env\<lparr>write_fails_at := Some 1\<rparr>) = Some 1" by simp
  have before: "files demo_state ''uploads/u2.mkv'' = None"
    by (simp add: demo_state_def)
  from upload_video_fails_at [OF auth ext wf len, of None None] before
  show ?thesis
    by (simp only: demo_big_path demo_big_prefix) simp
qed

section \<open>Deletion\<close>

lemma find_filter_none:
  "(\<And>x. P x \<Longrightarrow> \<not> Q x) \<Longrightarrow> find P (filter Q xs) = None"
  by (induction xs) auto

lemma delete_video_found:
  assumes "get_current_user decode (users st) (Some token) = Inr usr"
    and "find (\<lambda>v. video_id v = vid \<and> user_id v = uid usr) (videos st) = Some v"
  shows "delete_video decode st vid token =
           (Inr [(''message'', JStr ''Video deleted successfully'')],
            st\<lparr>files := (files st)(upload_path (filename v) := None),
               videos := filter (\<lambda>w. video_id w \<noteq> video_id v) (videos st)\<rparr>)"
  using assms by (simp add: delete_video_def)

lemma delete_video_not_found:
  assumes "get_current_user decode (users st) (Some token) = Inr usr"
    and "find (\<lambda>v. video_id v = vid \<and> user_id v = uid usr) (videos st) = None"
  shows "delete_video decode st vid token = (Inl (HTTPException 404 ''Video not found''), st)"
  using assms by (simp add: delete_video_def)

text \<open>
  Claim C9, as the code has it. Deleting a video that exists and is the caller's
  succeeds, whether or not its file is there, and leaves neither record nor file. It is
  not idempotent: the same request again finds no record and is answered 404, with the
  state unchanged.
\<close>

theorem delete_twice:
  assumes "get_current_user decode (users st) (Some token) = Inr usr"
    and "find (\<lambda>v. video_id v = vid \<and> user_id v = uid usr) (videos st) = Some v"
  shows "\<exists>st'.
           delete_video decode st vid token
             = (Inr [(''message'', JStr ''Video deleted successfully'')], st') \<and>
           query_video st' vid = None \<and>
           files st' (upload_path (filename v)) = None \<and>
           delete_video decode st' vid token
             = (Inl (HTTPException 404 ''Video not found''), st')"
proof -
  let ?st' = "st\<lparr>files := (files st)(upload_path (filename v) := None),
                 videos := filter (\<lambda>w. video_id w \<noteq> video_id v) (videos st)\<rparr>"
  from assms(2) have vid: "video_id v = vid"
    by (auto simp: find_Some_iff)
  have gone: "query_video ?st' vid = None"
    unfolding query_video_def using vid by (simp, intro find_filter_none) simp
  have "find (\<lambda>w. video_id w = vid \<and> user_id w = uid usr) (videos ?st') = None"
    using vid by (simp, intro find_filter_none) simp
  moreover have "get_current_user decode (users ?st') (Some token) = Inr usr"
    using assms(1) by simp
  ultimately have "delete_video decode ?st' vid token
                     = (Inl (HTTPException 404 ''Video not found''), ?st')"
    by (rule delete_video_not_found [rotated])
  with delete_video_found [OF assms] gone show ?thesis by simp
qed

lemma demo_owned:
  "find (\<lambda>v. video_id v = 1 \<and> user_id v = uid demo_user) (videos demo_state) = Some demo_video"
  by (simp add: demo_state_def demo_video_def demo_user_def)

theorem delete_twice_witness:
  "get_current_user (jwt_decode demo_env) (users demo_state) (Some ''tok'') = Inr demo_user \<and>
   find (\<lambda>v. video_id v = 1 \<and> user_id v = uid demo_user) (videos demo_state)
     = Some demo_video \<and>
   (\<exists>st'.
      delete_video (jwt_decode demo_env) demo_state 1 ''tok''
        = (Inr [(''message'', JStr ''Video deleted successfully'')], st') \<and>
      query_video st' 1 = None \<and>
      files st' ''uploads/u1.mp4'' = None \<and>
      delete_video (jwt_decode demo_env) st' 1 ''tok''
        = (Inl (HTTPException 404 ''Video not found''), st'))"
  using delete_twice [OF demo_auth demo_owned] demo_auth demo_owned
  by (simp add: demo_video_def upload_path_def UPLOAD_DIR_def)

text \<open>
  Claim C9 as stated fails: of two deletions in a row the first succeeds and the second
  is an error.
\<close>

theorem delete_twice_counterexample:
  "fst (delete_video (jwt_decode demo_env) demo_state 1 ''tok'')
     = Inr [(''message'', JStr ''Video deleted successfully'')] \<and>
   fst (delete_video (jwt_decode demo_env)
          (snd (delete_video (jwt_decode demo_env) demo_state 1 ''tok'')) 1 ''tok'')
     = Inl (HTTPException 404 ''Video not found'')"
proof -
  let ?st' = "demo_state\<lparr>files := (files demo_state)(upload_path (filename demo_video) := None),
                 videos := filter (\<lambda>w. video_id w \<noteq> video_id demo_video) (videos demo_state)\<rparr>"
  have first: "delete_video (jwt_decode demo_env) demo_state 1 ''tok''
                 = (Inr [(''message'', JStr ''Video deleted successfully'')], ?st')"
    by (rule delete_video_found [OF demo_auth demo_owned])
  have "get_current_user (jwt_decode demo_env) (users ?st') (Some ''tok'') = Inr demo_user"
    using demo_auth by simp
  moreover have "find (\<lambda>v. video_id v = 1 \<and> user_id v = uid demo_user) (videos ?st') = None"
    by (simp add: demo_state_def demo_video_def)
  ultimately have "delete_video (jwt_decode demo_env) ?st' 1 ''tok''
                     = (Inl (HTTPException 404 ''Video not found''), ?st')"
    by (rule delete_video_not_found)
  with first show ?thesis by simp
qed

section \<open>Processing status\<close>

lemma stream_video_cases:
  assumes "stream_video st vid hdr = (r, st')"
  shows "st' = st \<or> st' = db_update st vid (\<lambda>v. v\<lparr>views := views v + 1\<rparr>)"
  using assms
  by (auto simp: stream_video_def Let_def split: option.splits sum.splits prod.splits if_splits)

lemma get_video_info_state: "get_video_info st vid = (r, st') \<Longrightarrow> st' = st"
  by (auto simp: get_video_info_def split: option.splits)

lemma delete_video_cases:
  assumes "delete_video decode st vid tok = (r, st')"
  shows "st' = st \<or>
         (\<exists>fs. st' = st\<lparr>files := fs, videos := filter (\<lambda>w. video_id w \<noteq> vid) (videos st)\<rparr>)"
proof (cases "get_current_user decode (users st) (Some tok)")
  case (Inl err)
  with assms show ?thesis by (simp add: delete_video_def)
next
  case (Inr usr)
  show ?thesis
  proof (cases "find (\<lambda>v. video_id v = vid \<and> user_id v = uid usr) (videos st)")
    case None
    with Inr assms show ?thesis by (simp add: delete_video_def)
  next
    case (Some v)
    then have "video_id v = vid" by (auto simp: find_Some_iff)
    with delete_video_found [OF Inr Some] assms show ?thesis by auto
  qed
qed

lemma query_video_None_iff:
  "query_video st vid = None \<longleftrightarrow> (\<forall>v \<in> set (videos st). video_id v \<noteq> vid)"
  by (auto simp: query_video_def find_None_iff)


lemma step_completed_inv:
  assumes "completed_inv st" and "step st st'"
  shows "completed_inv st'"
  using assms(2)
proof cases
  case (Upload e upl t d token r)
  from upload_video_cases [OF this] assms(1) show ?thesis
    by (auto simp: completed_inv_def)
next
  case (Stream vid hdr r)
  from stream_video_cases [OF this] assms(1) show ?thesis
    by (auto simp: completed_inv_def db_update_def)
next
  case (Info vid r)
  from get_video_info_state [OF this] assms(1) show ?thesis by simp
next
  case (Delete decode vid tok r)
  from delete_video_cases [OF this] assms(1) show ?thesis
    by (auto simp: completed_inv_def)
next
  case (Accounts us)
  with assms(1) show ?thesis by (simp add: completed_inv_def)
next
  case (Worker_begin vid)
  with assms(1) show ?thesis
    by (auto simp: completed_inv_def process_video_begin_def db_update_def
             split: option.splits if_splits)
next
  case (Worker_finish vid)
  with assms(1) show ?thesis
    by (auto simp: completed_inv_def process_video_finish_def db_update_def
             split: if_splits)
next
  case (Worker_except vid ph msg)
  with assms(1) show ?thesis
    by (auto simp: completed_inv_def process_video_except_def db_update_def
             split: option.splits if_splits)
qed

lemma reachable_completed_inv: "reachable st \<Longrightarrow> completed_inv st"
proof (induction rule: reachable.induct)
  case (Init us fs)
  show ?case by (simp add: completed_inv_def)
next
  case (Step st st')
  then show ?case by (blast intro: step_completed_inv)
qed








text \<open>
  Claim C7. In every state the system can reach, a record whose status is completed has
  a duration and a thumbnail path. The transition of the worker that marks a record
  completed writes the duration and the thumbnail path in the same update.
\<close>

theorem completed_has_duration_and_thumbnail:
  "(reachable st \<and> v \<in> set (videos st) \<and> processing_status v = ''completed''
      \<longrightarrow> duration v \<noteq> None \<and> thumbnail_path v \<noteq> None) \<and>
   (query_video st vid = Some w
      \<longrightarrow> query_video (process_video_finish st vid) vid
            = Some (w\<lparr>duration := Some 120,
                      processed := True,
                      processing_status := ''completed'',
                      thumbnail_path := Some (''thumbnails/'' @ filename w @ ''.jpg'')\<rparr>))"
proof (rule conjI; rule impI)
  assume "reachable st \<and> v \<in> set (videos st) \<and> processing_status v = ''completed''"
  with reachable_completed_inv [of st]
  show "duration v \<noteq> None \<and> thumbnail_path v \<noteq> None"
    by (auto simp: completed_inv_def)
next
  assume q: "query_video st vid = Some w"
  have "query_video (db_update st vid
            (\<lambda>v. v\<lparr>duration := Some 120,
                processed := True,
                processing_status := ''completed'',
                thumbnail_path := Some (''thumbnails/'' @ filename v @ ''.jpg'')\<rparr>)) vid
          = Some (w\<lparr>duration := Some 120,
                      processed := True,
                      processing_status := ''completed'',
                      thumbnail_path := Some (''thumbnails/'' @ filename w @ ''.jpg'')\<rparr>)"
    using q by (rule query_video_db_update) simp
  then show "query_video (process_video_finish st vid) vid
            = Some (w\<lparr>duration := Some 120,
                      processed := True,
                      processing_status := ''completed'',
                      thumbnail_path := Some (''thumbnails/'' @ filename w @ ''.jpg'')\<rparr>)"
    by (simp add: process_video_finish_def query_video_def)
qed

lemma demo_uploaded_eq:
  "demo_uploaded =
     \<lparr>users = [demo_user], videos = [demo_new],
      files = [''uploads/u2.mp4'' \<mapsto> ''movie''], next_id = 2,
      tasks = [1 \<mapsto> Scheduled]\<rparr>"
proof -
  have auth: "get_current_user (jwt_decode demo_env) (users demo_init) (Some ''tok'')
                = Inr demo_user"
    by (simp add: get_current_user_def demo_env_def demo_init_def demo_user_def)
  have ext: "lower (suffix (file_filename demo_upload)) \<in> allowed_extensions"
    by (simp add: demo_upload_ext allowed_extensions_def)
  have sv: "save_chunks (write_fails_at demo_env) 0 (file_content demo_upload) [] 0
              = (Inr 5, ''movie'')"
    by (simp add: demo_env_def demo_upload_def save_chunks_None)
  have fresh: "uuid4 demo_env @ lower (suffix (file_filename demo_upload))
                 \<notin> filename ` set (videos demo_init)"
    by (simp add: demo_init_def)
  show ?thesis
    unfolding demo_uploaded_def upload_video_saved [OF auth ext sv fresh]
    by (simp add: demo_upload_path demo_upload_ext)
       (simp add: demo_init_def demo_new_def demo_env_def demo_upload_def demo_user_def
          title_or_def upload_path_def UPLOAD_DIR_def)
qed

lemma demo_claimed_eq:
  "demo_claimed =
     \<lparr>users = [demo_user], videos = [demo_new\<lparr>processing_status := ''processing''\<rparr>],
      files = [''uploads/u2.mp4'' \<mapsto> ''movie''], next_id = 2,
      tasks = [1 \<mapsto> Sleeping]\<rparr>"
  by (simp add: demo_claimed_def demo_uploaded_eq process_video_begin_def query_video_def
        db_update_def demo_new_def)

lemma demo_done_eq:
  "demo_done =
     \<lparr>users = [demo_user], videos = [demo_finished],
      files = [''uploads/u2.mp4'' \<mapsto> ''movie''], next_id = 2,
      tasks = Map.empty\<rparr>"
  by (simp add: demo_done_def demo_claimed_eq process_video_finish_def db_update_def
        demo_new_def demo_finished_def)

lemma demo_done_reachable: "reachable demo_done"
proof -
  have "reachable demo_init" unfolding demo_init_def by (rule reachable.Init)
  moreover have "step demo_init demo_uploaded"
    unfolding demo_uploaded_def
    by (rule step.Upload [of demo_env demo_init demo_upload None None "Some ''tok''"
          "fst (upload_video demo_env demo_init demo_upload None None (Some ''tok''))"]) simp
  ultimately have "reachable demo_uploaded" by (rule reachable.Step)
  moreover have "step demo_uploaded demo_claimed"
    unfolding demo_claimed_def
    by (rule step.Worker_begin) (simp add: demo_uploaded_eq)
  ultimately have "reachable demo_claimed" by (rule reachable.Step)
  moreover have "step demo_claimed demo_done"
    unfolding demo_done_def
    by (rule step.Worker_finish) (simp add: demo_claimed_eq)
  ultimately show ?thesis by (rule reachable.Step)
qed



theorem completed_has_duration_witness:
  "reachable demo_done \<and>
   demo_finished \<in> set (videos demo_done) \<and>
   processing_status demo_finished = ''completed'' \<and>
   duration demo_finished \<noteq> None \<and> thumbnail_path demo_finished \<noteq> None \<and>
   query_video demo_claimed 1 = Some (demo_new\<lparr>processing_status := ''processing''\<rparr>) \<and>
   query_video (process_video_finish demo_claimed 1) 1 = Some demo_finished"
proof -
  have a: "reachable demo_done \<and> demo_finished \<in> set (videos demo_done) \<and>
           processing_status demo_finished = ''completed''"
    using demo_done_reachable by (simp add: demo_done_eq demo_finished_def)
  have q: "query_video demo_claimed 1 = Some (demo_new\<lparr>processing_status := ''processing''\<rparr>)"
    by (simp add: demo_claimed_eq query_video_def demo_new_def)
  from completed_has_duration_and_thumbnail [of demo_done demo_finished]
    completed_has_duration_and_thumbnail
      [of demo_claimed _ 1 "demo_new\<lparr>processing_status := ''processing''\<rparr>"] a q
  show ?thesis by (simp add: demo_finished_def demo_new_def)
qed


end
